theory Spec2Isabelle
  imports Complex_Main "HOL-Library.Multiset"
begin

section \<open>Conventions\<close>

text \<open>
  The development follows \<^verbatim>\<open>CA_Model_Code.py\<close>. Python integers are read as
  \<^typ>\<open>int\<close>; the attribute tables of the gridded surface are lists of row records in
  cursor order. Calls into the GIS library are parameters of the model: the spatial query
  (which cells have their centre within the search distance of a cell) and the sort of a
  table on a field.

  Python floats are double-precision numbers, read as the real numbers they denote, and
  every operation on them is written with its rounding (see the next section). The
  entries of the disagreement table are integers; the halves of their sums are exact.
\<close>

datatype py_error = ZeroDivisionError | TypeError | IndexError

section \<open>Double-precision arithmetic\<close>

text \<open>
  The nearest integer, ties to the even one.
\<close>

definition roundEven :: "real \<Rightarrow> int" where
  "roundEven y =
     (let f = \<lfloor>y\<rfloor>; d = y - of_int f
      in if d < 1 / 2 then f else if d > 1 / 2 then f + 1 else if even f then f else f + 1)"

text \<open>
  The result of one floating-point operation whose exact result is \<open>x\<close>: the nearest
  number with a significand of 53 bits, ties to even. The range of the exponent is not
  bounded here: a result below the smallest normal double or above the largest double is
  rounded like any other. The one place where the source reaches the end of the range
  with moderate inputs is the power in the probability, which is given its overflow
  below.
\<close>

definition fl :: "real \<Rightarrow> real" where
  "fl x =
     (if x = 0 then 0
      else let e = \<lfloor>log 2 \<bar>x\<bar>\<rfloor>
           in of_int (roundEven (x * 2 powr (52 - of_int e))) * 2 powr (of_int e - 52))"

text \<open>The largest double, and \<^verbatim>\<open>math.e\<close>, the double next to Euler's number.\<close>

definition maxFloat :: real where
  "maxFloat = (2 - 1 / 2 ^ 52) * 2 ^ 1023"

definition eFloat :: real where
  "eFloat = 6121026514868073 / 2 ^ 51"

text \<open>
  \<^verbatim>\<open>sum(xs)\<close> on floats: the entries are added from the left, starting from 0, and
  every sum is rounded.
\<close>

definition floatSum :: "real list \<Rightarrow> real" where
  "floatSum vs = foldl (\<lambda>acc v. fl (acc + v)) 0 vs"

text \<open>
  \<^verbatim>\<open>1/(1+e**-z)\<close> on a float \<open>z\<close> of the numerical library: the power is rounded
  (it is taken to be correctly rounded); a power above the largest double is the
  library's infinity, and the quotient is then 0.0. A power too small for a double makes
  no difference: the sum \<^verbatim>\<open>1+e**-z\<close> is 1.0 for every power below \<open>2\<^sup>-\<^sup>5\<^sup>3\<close>.
\<close>

definition logistic :: "real \<Rightarrow> real" where
  "logistic z =
     (let t = fl (eFloat powr (- z))
      in if t > maxFloat then 0 else fl (1 / fl (1 + t)))"

section \<open>Quantity and allocation disagreement\<close>

text \<open>
  The seven classification lists of one configuration: the \<^verbatim>\<open>TARGET_FID\<close> values
  whose \<^verbatim>\<open>Wind_Turb_Fut\<close> entry is \<^verbatim>\<open>N\<close>, \<^verbatim>\<open>Y (2025)\<close>, ...,
  \<^verbatim>\<open>Y (2050)\<close>.
\<close>

record classification =
  NCount :: "int list"
  YCount2025 :: "int list"
  YCount2030 :: "int list"
  YCount2035 :: "int list"
  YCount2040 :: "int list"
  YCount2045 :: "int list"
  YCount2050 :: "int list"

definition classLists :: "classification \<Rightarrow> int list list" where
  "classLists c =
     [NCount c, YCount2025 c, YCount2030 c, YCount2035 c, YCount2040 c, YCount2045 c, YCount2050 c]"

text \<open>
  \<^verbatim>\<open>for i in range(len(xs)): if xs[i] in ys: counter = counter + 1\<close>
\<close>

definition countIn :: "int list \<Rightarrow> int list \<Rightarrow> int" where
  "countIn xs ys = int (length (filter (\<lambda>x. x \<in> set ys) xs))"

text \<open>
  One row of the table (\<^verbatim>\<open>listNo\<close>, \<^verbatim>\<open>list2025\<close>, ...): the cells of one class of
  the null configuration, counted by their class under the other configuration, followed
  by the row sum (\<^verbatim>\<open>sumNoFarm\<close>, \<^verbatim>\<open>sumYes2025\<close>, ...).
\<close>

definition tableRow :: "classification \<Rightarrow> int list \<Rightarrow> int list" where
  "tableRow other nullK =
     (let cs = map (countIn nullK) (classLists other) in cs @ [sum_list cs])"

definition tableRows :: "classification \<Rightarrow> classification \<Rightarrow> int list list" where
  "tableRows null other = map (tableRow other) (classLists null)"

definition totalCells :: "int list list \<Rightarrow> int" where
  "totalCells rows = sum_list (map (\<lambda>r. r ! 7) rows)"

definition bottomRow :: "int list list \<Rightarrow> int list" where
  "bottomRow rows =
     map (\<lambda>j. sum_list (map (\<lambda>r. r ! j) rows)) [0..<7] @ [totalCells rows]"

definition listOfLists :: "int list list \<Rightarrow> int list list" where
  "listOfLists rows = rows @ [bottomRow rows]"

text \<open>\<^verbatim>\<open>[list(i) for i in zip(*xss)]\<close>: stops at the shortest list.\<close>

function zipStar :: "'a list list \<Rightarrow> 'a list list" where
  "zipStar xss =
     (if xss = [] \<or> (\<exists>xs \<in> set xss. xs = []) then []
      else map hd xss # zipStar (map tl xss))"
  by pat_completeness auto
termination
proof (relation "measure (\<lambda>xss. length (hd xss))")
  show "wf (measure (\<lambda>xss::'a list list. length (hd xss)))" by simp
next
  fix xss :: "'a list list"
  assume "\<not> (xss = [] \<or> (\<exists>xs \<in> set xss. xs = []))"
  then obtain y ys where xss: "xss = y # ys" and y: "y \<noteq> []"
    by (cases xss) auto
  from y obtain a as where "y = a # as"
    by (cases y) auto
  with xss show "(map tl xss, xss) \<in> measure (\<lambda>xss. length (hd xss))"
    by simp
qed

declare zipStar.simps [simp del]

definition transList :: "int list list \<Rightarrow> int list list" where
  "transList rows = zipStar (listOfLists rows)"

definition quantDis :: "int list list \<Rightarrow> real" where
  "quantDis rows =
     real_of_int
       (\<bar>bottomRow rows ! 0 - transList rows ! 0 ! 7\<bar> + \<bar>bottomRow rows ! 1 - transList rows ! 1 ! 7\<bar>
        + \<bar>bottomRow rows ! 2 - transList rows ! 2 ! 7\<bar> + \<bar>bottomRow rows ! 3 - transList rows ! 3 ! 7\<bar>
        + \<bar>bottomRow rows ! 4 - transList rows ! 4 ! 7\<bar> + \<bar>bottomRow rows ! 5 - transList rows ! 5 ! 7\<bar>
        + \<bar>bottomRow rows ! 6 - transList rows ! 6 ! 7\<bar>) / 2"

definition rowSum7 :: "int list list \<Rightarrow> nat \<Rightarrow> int" where
  "rowSum7 t k = t ! k ! 0 + t ! k ! 1 + t ! k ! 2 + t ! k ! 3 + t ! k ! 4 + t ! k ! 5 + t ! k ! 6"

definition colSum7 :: "int list list \<Rightarrow> nat \<Rightarrow> int" where
  "colSum7 t m = t ! 0 ! m + t ! 1 ! m + t ! 2 ! m + t ! 3 ! m + t ! 4 ! m + t ! 5 ! m + t ! 6 ! m"

definition quantDisStar :: "int list list \<Rightarrow> int" where
  "quantDisStar rows =
     (let t = transList rows in
      \<bar>(rowSum7 t 0 + rowSum7 t 1 + rowSum7 t 2 + rowSum7 t 3 + rowSum7 t 4 + rowSum7 t 5)
       - (colSum7 t 0 + colSum7 t 1 + colSum7 t 2 + colSum7 t 3 + colSum7 t 4 + colSum7 t 5)\<bar>)"

definition absoDis :: "int list list \<Rightarrow> real" where
  "absoDis rows =
     (let b = bottomRow rows; t = transList rows in
      real_of_int
        (2 * min (b ! 0 - t ! 0 ! 0) (t ! 0 ! 7 - t ! 0 ! 0) + 2 * min (b ! 1 - t ! 1 ! 1) (t ! 1 ! 7 - t ! 1 ! 1)
         + 2 * min (b ! 2 - t ! 2 ! 2) (t ! 2 ! 7 - t ! 2 ! 2) + 2 * min (b ! 3 - t ! 3 ! 3) (t ! 3 ! 7 - t ! 3 ! 3)
         + 2 * min (b ! 4 - t ! 4 ! 4) (t ! 4 ! 7 - t ! 4 ! 4) + 2 * min (b ! 5 - t ! 5 ! 5) (t ! 5 ! 7 - t ! 5 ! 5)
         + 2 * min (b ! 6 - t ! 6 ! 6) (t ! 6 ! 7 - t ! 6 ! 6)) / 2)"

definition qFinal :: "int list list \<Rightarrow> real" where
  "qFinal rows =
     (if quantDis rows \<noteq> real_of_int (quantDisStar rows) then real_of_int (quantDisStar rows)
      else quantDis rows)"

definition aFinal :: "int list list \<Rightarrow> real" where
  "aFinal rows =
     (if quantDis rows \<noteq> real_of_int (quantDisStar rows)
      then absoDis rows + \<bar>quantDis rows - real_of_int (quantDisStar rows)\<bar>
      else absoDis rows)"

text \<open>
  The quantity disagreement as the specification words it: half the sum, over the seven
  classes, of the absolute difference between the class's row total (the null
  configuration's count, last entry of the class's row) and its column total (the other
  configuration's count, the entry of the totals row).
\<close>

definition spec_quantDis :: "int list list \<Rightarrow> real" where
  "spec_quantDis rows =
     real_of_int (\<Sum>k \<leftarrow> [0..<7]. \<bar>rows ! k ! 7 - bottomRow rows ! k\<bar>) / 2"

text \<open>Example classifications of a one-cell grid, used to evaluate the table.\<close>

definition onlyN :: classification where
  "onlyN = \<lparr>NCount = [1], YCount2025 = [], YCount2030 = [], YCount2035 = [],
     YCount2040 = [], YCount2045 = [], YCount2050 = []\<rparr>"

definition only2050 :: classification where
  "only2050 = \<lparr>NCount = [], YCount2025 = [], YCount2030 = [], YCount2035 = [],
     YCount2040 = [], YCount2045 = [], YCount2050 = [1]\<rparr>"

section \<open>Coefficient iteration\<close>

text \<open>
  One entry of \<^verbatim>\<open>newCoefficients\<close>: the coefficient of the next five-year period
  from the percentage \<^verbatim>\<open>Coeff_Change_(%)\<close> and the coefficient of the current period,
  \<^verbatim>\<open>c + abs(c*(change/100))\<close> or \<^verbatim>\<open>c - abs(c*(change/100))\<close>; the quotient, the
  product and the sum are rounded, the absolute value is exact.
\<close>

definition newCoefficient :: "real \<Rightarrow> real \<Rightarrow> real" where
  "newCoefficient change c =
     (if change > 0 then fl (c + \<bar>fl (c * fl (change / 100))\<bar>)
      else if change < 0 then fl (c - \<bar>fl (c * fl (change / 100))\<bar>)
      else c)"

text \<open>
  \<^verbatim>\<open>for i in range(len(dfCoeffs["Coeff_2020"]))\<close>: the columns of one data frame have
  the same length.
\<close>

definition newCoefficients :: "real list \<Rightarrow> real list \<Rightarrow> real list" where
  "newCoefficients change col =
     map (\<lambda>i. newCoefficient (change ! i) (col ! i)) [0..<length col]"

text \<open>
  \<^verbatim>\<open>for h in range(6)\<close>: the column of \<^verbatim>\<open>yearList[h+1]\<close> is computed from the
  column of \<^verbatim>\<open>yearList[h]\<close>. The columns \<^verbatim>\<open>Coeff_2020\<close>, ..., \<^verbatim>\<open>Coeff_2050\<close> are
  kept as a list in the order of \<^verbatim>\<open>yearList\<close>.
\<close>

definition yearList :: "string list" where
  "yearList = [''2020'', ''2025'', ''2030'', ''2035'', ''2040'', ''2045'', ''2050'']"

definition coefficientIteration :: "real list \<Rightarrow> real list \<Rightarrow> real list list" where
  "coefficientIteration change coeff2020 =
     fold (\<lambda>h cols. cols @ [newCoefficients change (cols ! h)]) [0..<6] [coeff2020]"


section \<open>Probability and the field of a time step\<close>

text \<open>
  The answers to the prompts \<^verbatim>\<open>Would you like to switch off the constraints?\<close> and
  \<^verbatim>\<open>Would you like to switch off the neighborhood effects?\<close>: \<open>Yes\<close> is the answer
  \<^verbatim>\<open>"Y"\<close> (the subsystem is switched off), \<open>No\<close> is \<^verbatim>\<open>"N"\<close> (it is in use).
\<close>

datatype yesNo = Yes | No

text \<open>One row of the gridded surface \<^verbatim>\<open>constAndNeighbor\<close>.\<close>

record cell =
  TARGET_FID :: int
  predictors :: "real list"
  Wind_Turb :: string
  Wind_Turb_Fut :: string
  Constraint :: real
  Neighborhood :: real
  Neighb_Update :: "real option"
  Probab :: real
  Probab_Year :: real

definition timeSteps :: "string list" where
  "timeSteps = [''2025'', ''2030'', ''2035'', ''2040'', ''2045'', ''2050'']"

text \<open>
  The settings of a model run: the two switches, the number of grid cells that gain a
  wind farm in each time step, and the two services of the GIS library. \<open>near g h\<close>
  says that the centre of the cell with \<^verbatim>\<open>TARGET_FID\<close> \<open>h\<close> lies within the
  search distance (\<^verbatim>\<open>distance*neighborhoodSize\<close>) of the cell \<open>g\<close>;
  \<open>Sort_management\<close> returns the rows of a table sorted on the field of the time step,
  descending.
\<close>

record settings =
  ConstYesNo :: yesNo
  NeighYesNo :: yesNo
  gridCellsChanged :: int
  near :: "int \<Rightarrow> int \<Rightarrow> bool"
  Sort_management :: "cell list \<Rightarrow> cell list"

text \<open>
  \<^verbatim>\<open>1/(1+e**-(intercept + sum(coeff[0:n]*x[0:n])))\<close>, where \<open>x\<close> is the row of
  \<^verbatim>\<open>dfArray\<close> of a cell and \<open>n\<close> its length: the products of the coefficients and
  the predictors are rounded one by one, summed from the left, and the intercept is added.
\<close>

definition prob :: "real \<Rightarrow> real list \<Rightarrow> real list \<Rightarrow> real" where
  "prob intercept coeff x =
     logistic (fl (intercept + floatSum (map2 (\<lambda>a b. fl (a * b)) (take (length x) coeff) x)))"

text \<open>
  The expression handed to \<^verbatim>\<open>CalculateField\<close> for the field \<^verbatim>\<open>Probab_year\<close> of
  time step \<open>f\<close>, evaluated on one row; \<open>cnt\<close> (the source's \<^verbatim>\<open>count\<close>) is the number of cells holding a wind
  farm before the run. A product of three fields is taken from the left. A null
  \<^verbatim>\<open>Neighb_Update\<close> cannot be multiplied.
\<close>

definition fieldValue :: "settings \<Rightarrow> nat \<Rightarrow> int \<Rightarrow> cell \<Rightarrow> py_error + real" where
  "fieldValue s f cnt c =
     (if timeSteps ! f = ''2025'' \<and> cnt < 2 then
        (case ConstYesNo s of
           Yes \<Rightarrow> Inr (Probab c)
         | No \<Rightarrow> Inr (fl (Constraint c * Probab c)))
      else if timeSteps ! f = ''2025'' \<and> cnt \<ge> 2 then
        (case (NeighYesNo s, ConstYesNo s) of
           (Yes, No) \<Rightarrow> Inr (fl (Constraint c * Probab c))
         | (No, Yes) \<Rightarrow> Inr (fl (Neighborhood c * Probab c))
         | (Yes, Yes) \<Rightarrow> Inr (Probab c)
         | (No, No) \<Rightarrow> Inr (fl (fl (Constraint c * Neighborhood c) * Probab c)))
      else
        (case (NeighYesNo s, ConstYesNo s) of
           (Yes, No) \<Rightarrow> Inr (fl (Constraint c * Probab c))
         | (No, Yes) \<Rightarrow>
             (case Neighb_Update c of None \<Rightarrow> Inl TypeError
              | Some n \<Rightarrow> Inr (fl (n * Probab c)))
         | (Yes, Yes) \<Rightarrow> Inr (Probab c)
         | (No, No) \<Rightarrow>
             (case Neighb_Update c of None \<Rightarrow> Inl TypeError
              | Some n \<Rightarrow> Inr (fl (fl (Constraint c * n) * Probab c)))))"

text \<open>
  The composite score as the specification tabulates it, from whether the constraints and
  the neighbourhood effects are enabled.
\<close>

definition spec_compositeScore :: "bool \<Rightarrow> bool \<Rightarrow> real \<Rightarrow> real \<Rightarrow> real \<Rightarrow> real" where
  "spec_compositeScore constraintsOn neighborhoodOn eligibility neighborhood p =
     (if constraintsOn \<and> neighborhoodOn then p
      else if constraintsOn \<and> \<not> neighborhoodOn then eligibility * p
      else if \<not> constraintsOn \<and> neighborhoodOn then neighborhood * p
      else eligibility * neighborhood * p)"

definition enabled :: "yesNo \<Rightarrow> bool" where
  "enabled switchedOff = (switchedOff = No)"

text \<open>The columns present after \<open>n\<close> rounds of the loop over \<^verbatim>\<open>h\<close>.\<close>

definition colsUpto :: "real list \<Rightarrow> real list \<Rightarrow> nat \<Rightarrow> real list list" where
  "colsUpto change coeff2020 n =
     fold (\<lambda>h cols. cols @ [newCoefficients change (cols ! h)]) [0..<n] [coeff2020]"

text \<open>
  The neighbourhood field read by the expression of time step \<open>f\<close>:
  \<^verbatim>\<open>Neighborhood\<close> in 2025, \<^verbatim>\<open>Neighb_Update\<close> afterwards.
\<close>

definition neighborhoodField :: "nat \<Rightarrow> cell \<Rightarrow> real option" where
  "neighborhoodField f c =
     (if timeSteps ! f = ''2025'' then Some (Neighborhood c) else Neighb_Update c)"

text \<open>An example row: barred by a constraint, half of its neighbours hold a wind farm.\<close>

definition barredCell :: cell where
  "barredCell = \<lparr>TARGET_FID = 1, predictors = [], Wind_Turb = ''N'', Wind_Turb_Fut = ''N'',
     Constraint = 0, Neighborhood = 1 / 2, Neighb_Update = Some (1 / 2), Probab = 1 / 2,
     Probab_Year = 0\<rparr>"

text \<open>
  Example settings: cells are numbered along a line and the search distance reaches the
  next cell on either side; the sort is the stable sort on the field, descending.
\<close>

definition exampleSettings :: "yesNo \<Rightarrow> yesNo \<Rightarrow> int \<Rightarrow> settings" where
  "exampleSettings constAnswer neighAnswer quota =
     \<lparr>ConstYesNo = constAnswer, NeighYesNo = neighAnswer, gridCellsChanged = quota,
      near = (\<lambda>g h. \<bar>g - h\<bar> \<le> 1),
      Sort_management = sort_key (\<lambda>c. - Probab_Year c)\<rparr>"

section \<open>Neighbourhood effect factors\<close>

text \<open>
  \<^verbatim>\<open>SelectLayerByLocation(layer, "HAVE_THEIR_CENTER_IN", <the row of gridCell>, distance)\<close>:
  the rows of the layer whose centre lies within the search distance of the cell. The
  selecting row is always a row of the layer.
\<close>

definition selectByLocation :: "(int \<Rightarrow> int \<Rightarrow> bool) \<Rightarrow> cell list \<Rightarrow> int \<Rightarrow> cell list" where
  "selectByLocation nr layer gridCell = filter (\<lambda>r. nr gridCell (TARGET_FID r)) layer"

text \<open>
  The full scan before the run (\<^verbatim>\<open>ConstraintNeighborhood.neighborhoodEffects\<close>): the
  factor of one cell, computed on the whole surface from the field \<^verbatim>\<open>Wind_Turb\<close>.
\<close>

definition neighborhoodEffect :: "(int \<Rightarrow> int \<Rightarrow> bool) \<Rightarrow> cell list \<Rightarrow> int \<Rightarrow> real" where
  "neighborhoodEffect nr preparedSurface gridCell =
     (let adjacent = selectByLocation nr preparedSurface gridCell;
          totalNeighbors = int (length adjacent) - 1;
          windFarmCount =
            int (length (filter (\<lambda>r. Wind_Turb r = ''Y'' \<and> TARGET_FID r \<noteq> gridCell) adjacent))
      in if totalNeighbors > 0 then fl (real_of_int windFarmCount / real_of_int totalNeighbors)
         else 0)"

definition neighborhoodEffects :: "(int \<Rightarrow> int \<Rightarrow> bool) \<Rightarrow> cell list \<Rightarrow> cell list" where
  "neighborhoodEffects nr preparedSurface =
     map (\<lambda>row. row\<lparr>Neighborhood := neighborhoodEffect nr preparedSurface (TARGET_FID row)\<rparr>)
       preparedSurface"

text \<open>
  The update after a time step (\<^verbatim>\<open>CellularAutomaton.neighborhoodEffects\<close>). The factor
  of one row of \<^verbatim>\<open>adjacent\<close>: its neighbours are selected in \<^verbatim>\<open>adjacent_lyr\<close>, the
  layer made from the rows around the cell that gained a wind farm, and counted on the
  field \<^verbatim>\<open>Wind_Turb_Fut\<close>; the quotient is not guarded.
\<close>

definition updatedFactor :: "(int \<Rightarrow> int \<Rightarrow> bool) \<Rightarrow> cell list \<Rightarrow> int \<Rightarrow> py_error + real" where
  "updatedFactor nr adjacent gridCell =
     (let neighbors = selectByLocation nr adjacent gridCell;
          totalNeighbors = int (length neighbors) - 1;
          windFarmCount =
            int (length (filter (\<lambda>r. CHR ''Y'' \<in> set (Wind_Turb_Fut r) \<and> TARGET_FID r \<noteq> gridCell)
              neighbors))
      in if totalNeighbors = 0 then Inl ZeroDivisionError
         else Inr (fl (real_of_int windFarmCount / real_of_int totalNeighbors)))"

text \<open>
  \<^verbatim>\<open>for row1 in subCursor\<close>: the pairs appended to \<^verbatim>\<open>gridCellList\<close> and
  \<^verbatim>\<open>neighborhoodList\<close>.
\<close>

fun subCursorLoop ::
  "(int \<Rightarrow> int \<Rightarrow> bool) \<Rightarrow> cell list \<Rightarrow> cell list \<Rightarrow> py_error + (int \<times> real) list" where
  "subCursorLoop nr adjacent [] = Inr []"
| "subCursorLoop nr adjacent (row1 # rest) =
     (case updatedFactor nr adjacent (TARGET_FID row1) of
        Inl e \<Rightarrow> Inl e
      | Inr v \<Rightarrow>
          (case subCursorLoop nr adjacent rest of
             Inl e \<Rightarrow> Inl e
           | Inr vs \<Rightarrow> Inr ((TARGET_FID row1, v) # vs)))"

text \<open>
  \<^verbatim>\<open>for row in cursor\<close> over \<^verbatim>\<open>mergedCells\<close>: the rows that gained a wind farm in
  this time step carry the label of the step.
\<close>

fun cursorLoop ::
  "(int \<Rightarrow> int \<Rightarrow> bool) \<Rightarrow> string \<Rightarrow> cell list \<Rightarrow> cell list \<Rightarrow> py_error + (int \<times> real) list" where
  "cursorLoop nr lbl mergedCells [] = Inr []"
| "cursorLoop nr lbl mergedCells (row # rest) =
     (if Wind_Turb_Fut row = lbl then
        (let adjacent = selectByLocation nr mergedCells (TARGET_FID row) in
         case subCursorLoop nr adjacent adjacent of
           Inl e \<Rightarrow> Inl e
         | Inr vs \<Rightarrow>
             (case cursorLoop nr lbl mergedCells rest of
                Inl e \<Rightarrow> Inl e
              | Inr ws \<Rightarrow> Inr (vs @ ws)))
      else cursorLoop nr lbl mergedCells rest)"

text \<open>
  The last cursor, on one row of \<^verbatim>\<open>constAndNeighbor\<close>: every matching entry of the
  lists is written to \<^verbatim>\<open>Neighb_Update\<close> in turn; a field still null then takes the
  value of \<^verbatim>\<open>Neighborhood\<close>.
\<close>

definition writeBack :: "(int \<times> real) list \<Rightarrow> cell \<Rightarrow> cell" where
  "writeBack updates row =
     (let row' = fold (\<lambda>(gridCell, v) r.
                    if TARGET_FID r = gridCell then r\<lparr>Neighb_Update := Some v\<rparr> else r)
                  updates row
      in if Neighb_Update row' = None then row'\<lparr>Neighb_Update := Some (Neighborhood row')\<rparr>
         else row')"

definition neighborhoodEffectsUpdate ::
  "(int \<Rightarrow> int \<Rightarrow> bool) \<Rightarrow> string \<Rightarrow> cell list \<Rightarrow> cell list \<Rightarrow> py_error + cell list" where
  "neighborhoodEffectsUpdate nr lbl mergedCells constAndNeighbor =
     (case cursorLoop nr lbl mergedCells mergedCells of
        Inl e \<Rightarrow> Inl e
      | Inr updates \<Rightarrow> Inr (map (writeBack updates) constAndNeighbor))"

text \<open>
  The factor as the specification words it: the converted neighbours over all neighbours,
  the neighbours of a cell being all other cells of the grid within the search distance;
  0 for a cell without neighbours.
\<close>

definition spec_factor :: "(int \<Rightarrow> int \<Rightarrow> bool) \<Rightarrow> cell list \<Rightarrow> int \<Rightarrow> real" where
  "spec_factor nr grid gridCell =
     (let neighbors = filter (\<lambda>r. nr gridCell (TARGET_FID r) \<and> TARGET_FID r \<noteq> gridCell) grid;
          converted = filter (\<lambda>r. CHR ''Y'' \<in> set (Wind_Turb_Fut r)) neighbors
      in if neighbors = [] then 0
         else real (length converted) / real (length neighbors))"

section \<open>The cellular automaton\<close>

text \<open>
  What one predictor configuration brings to the loop over the time steps: the list of
  intercepts and the position \<^verbatim>\<open>g\<close> of the configuration, the columns of
  \<^verbatim>\<open>dfCoeffs\<close> in the order of \<^verbatim>\<open>yearList\<close>, and the number \<^verbatim>\<open>count\<close> of cells
  holding a wind farm before the run.
\<close>

record configRun =
  interceptList :: "real list"
  configIndex :: nat
  dfCoeffs :: "real list list"
  farmCount :: int

text \<open>
  The probabilities of a time step, written to the field \<^verbatim>\<open>Probab\<close>; the column of
  \<^verbatim>\<open>timeSteps[f]\<close> is the column of \<^verbatim>\<open>yearList[f+1]\<close>.
\<close>

definition probabilities :: "configRun \<Rightarrow> nat \<Rightarrow> cell list \<Rightarrow> cell list" where
  "probabilities k f tbl =
     map (\<lambda>c. c\<lparr>Probab := prob (interceptList k ! configIndex k) (dfCoeffs k ! Suc f)
                  (predictors c)\<rparr>) tbl"

fun calculateField :: "settings \<Rightarrow> nat \<Rightarrow> int \<Rightarrow> cell list \<Rightarrow> py_error + cell list" where
  "calculateField s f cnt [] = Inr []"
| "calculateField s f cnt (c # cs) =
     (case fieldValue s f cnt c of
        Inl e \<Rightarrow> Inl e
      | Inr v \<Rightarrow>
          (case calculateField s f cnt cs of
             Inl e \<Rightarrow> Inl e
           | Inr cs' \<Rightarrow> Inr (c\<lparr>Probab_Year := v\<rparr> # cs')))"

definition label :: "nat \<Rightarrow> string" where
  "label f = ''Y ('' @ timeSteps ! f @ '')''"

text \<open>
  The cursor on \<^verbatim>\<open>cellsToConvert\<close> when the constraints are in use: the rows after
  the cursor, \<^verbatim>\<open>cellNoList\<close>, and whether \<^verbatim>\<open>abortScript\<close> became true.
\<close>

fun convertConstrained :: "string \<Rightarrow> cell list \<Rightarrow> cell list \<times> int list \<times> bool" where
  "convertConstrained lbl [] = ([], [], False)"
| "convertConstrained lbl (row # rest) =
     (if Constraint row = 0 then (row # rest, [], True)
      else (case convertConstrained lbl rest of
              (rest', cellNoList, abortScript) \<Rightarrow>
                (row\<lparr>Wind_Turb_Fut := lbl\<rparr> # rest', TARGET_FID row # cellNoList, abortScript)))"

text \<open>The cursor on \<^verbatim>\<open>cellsToConvert\<close> when the constraints are switched off.\<close>

definition convertAll :: "string \<Rightarrow> cell list \<Rightarrow> cell list \<times> int list \<times> bool" where
  "convertAll lbl rows = (map (\<lambda>row. row\<lparr>Wind_Turb_Fut := lbl\<rparr>) rows, map TARGET_FID rows, False)"

text \<open>
  Selection, sort, conversion and merge of one time step: the updated surface, the merged
  surface \<^verbatim>\<open>mergedCells\<close>, and \<^verbatim>\<open>abortScript\<close>. The rows of the sorted table are
  numbered from 1, so \<^verbatim>\<open>OBJECTID <= gridCellsChanged\<close> selects its first rows.
\<close>

definition allocate :: "settings \<Rightarrow> nat \<Rightarrow> cell list \<Rightarrow> cell list \<times> cell list \<times> bool" where
  "allocate s f tbl =
     (let noFarm = filter (\<lambda>c. Wind_Turb_Fut c = ''N'') tbl;
          sortedCells = Sort_management s noFarm;
          cellsToConvert = take (nat (gridCellsChanged s)) sortedCells;
          doNotConvert = drop (nat (gridCellsChanged s)) sortedCells
      in case (case ConstYesNo s of
                 No \<Rightarrow> convertConstrained (label f) cellsToConvert
               | Yes \<Rightarrow> convertAll (label f) cellsToConvert) of
           (converted, cellNoList, abortScript) \<Rightarrow>
             (let tbl' = map (\<lambda>row. if TARGET_FID row \<in> set cellNoList
                                    then row\<lparr>Wind_Turb_Fut := label f\<rparr> else row) tbl;
                  yesFarm = map snd (filter (\<lambda>(old, new). CHR ''Y'' \<in> set (Wind_Turb_Fut old))
                              (zip tbl tbl'))
              in (tbl', yesFarm @ converted @ doNotConvert, abortScript)))"

text \<open>One time step: the surface after the step and \<^verbatim>\<open>abortScript\<close>.\<close>

definition caStep :: "settings \<Rightarrow> configRun \<Rightarrow> nat \<Rightarrow> cell list \<Rightarrow> py_error + (cell list \<times> bool)" where
  "caStep s k f tbl =
     (case calculateField s f (farmCount k) (probabilities k f tbl) of
        Inl e \<Rightarrow> Inl e
      | Inr scored \<Rightarrow>
          (case allocate s f scored of
             (tbl', mergedCells, abortScript) \<Rightarrow>
               if timeSteps ! f \<noteq> ''2050'' \<and> NeighYesNo s = No then
                 (case neighborhoodEffectsUpdate (near s) (label f) mergedCells tbl' of
                    Inl e \<Rightarrow> Inl e
                  | Inr tbl'' \<Rightarrow> Inr (tbl'', abortScript))
               else Inr (tbl', abortScript)))"

text \<open>
  \<^verbatim>\<open>for f in range(len(timeSteps))\<close> with its \<^verbatim>\<open>break\<close>: the surface after each
  completed time step, and the error that ended the run, if any.
\<close>

fun caLoop ::
  "settings \<Rightarrow> configRun \<Rightarrow> nat list \<Rightarrow> cell list \<Rightarrow> cell list list \<times> py_error option" where
  "caLoop s k [] tbl = ([], None)"
| "caLoop s k (f # fs) tbl =
     (case caStep s k f tbl of
        Inl e \<Rightarrow> ([], Some e)
      | Inr (tbl', abortScript) \<Rightarrow>
          if ConstYesNo s = No \<and> abortScript then ([tbl'], None)
          else (case caLoop s k fs tbl' of (trace, err) \<Rightarrow> (tbl' # trace, err)))"




text \<open>
  The intercepts: \<^verbatim>\<open>interceptList\<close> receives the fitted intercept of each selected
  configuration; in the round of the null configuration (\<^verbatim>\<open>g = 0\<close>) the entry at
  position \<^verbatim>\<open>g\<close> is inserted in front, which fails on an empty list.
\<close>

definition insertNullIntercept :: "real list \<Rightarrow> py_error + real list" where
  "insertNullIntercept fitted =
     (if fitted = [] then Inl IndexError else Inr ((fitted ! 0) # fitted))"

text \<open>An example row of a surface without wind farms.\<close>

definition freeCell :: "int \<Rightarrow> cell" where
  "freeCell n = \<lparr>TARGET_FID = n, predictors = [], Wind_Turb = ''N'', Wind_Turb_Fut = ''N'',
     Constraint = 1, Neighborhood = 0, Neighb_Update = None, Probab = 0, Probab_Year = 0\<rparr>"

definition exampleRun :: configRun where
  "exampleRun = \<lparr>interceptList = [0, 0], configIndex = 1,
     dfCoeffs = [[], [], [], [], [], [], []], farmCount = 0\<rparr>"

text \<open>
  A row keeps its wind farm from one state of the surface to another: an entry of
  \<^verbatim>\<open>Wind_Turb_Fut\<close> other than \<^verbatim>\<open>N\<close> does not become \<^verbatim>\<open>N\<close>, and an entry with
  a \<^verbatim>\<open>Y\<close> keeps one.
\<close>

definition keepsFarm :: "cell \<Rightarrow> cell \<Rightarrow> bool" where
  "keepsFarm c c' \<longleftrightarrow>
     (Wind_Turb_Fut c \<noteq> ''N'' \<longrightarrow> Wind_Turb_Fut c' \<noteq> ''N'')
     \<and> (CHR ''Y'' \<in> set (Wind_Turb_Fut c) \<longrightarrow> CHR ''Y'' \<in> set (Wind_Turb_Fut c'))"





definition barredFreeCell :: "int \<Rightarrow> cell" where
  "barredFreeCell n = (freeCell n)\<lparr>Constraint := 0\<rparr>"

text \<open>
  The factors of a row as the preparation of the surface leaves them: the entry of
  \<^verbatim>\<open>Constraint\<close> is 0 or 1, and the neighbourhood factors, as far as they are
  filled, lie in [0, 1].
\<close>

definition validFactors :: "cell \<Rightarrow> bool" where
  "validFactors c \<longleftrightarrow>
     (Constraint c = 0 \<or> Constraint c = 1)
     \<and> 0 \<le> Neighborhood c \<and> Neighborhood c \<le> 1
     \<and> (case Neighb_Update c of None \<Rightarrow> True | Some n \<Rightarrow> 0 \<le> n \<and> n \<le> 1)"

text \<open>
  The merged surface \<^verbatim>\<open>projectedCells\<close> of a time step (the rows that held a wind farm
  before the step, the rows of \<^verbatim>\<open>cellsToConvert\<close> after the cursor, and the rows of
  \<^verbatim>\<open>doNotConvert\<close>), and the merged surface that the loop over the time steps leaves:
  that of its last step, the step of the \<^verbatim>\<open>break\<close> included.
\<close>

definition projectedCells :: "settings \<Rightarrow> configRun \<Rightarrow> nat \<Rightarrow> cell list \<Rightarrow> py_error + cell list" where
  "projectedCells s k f tbl =
     (case calculateField s f (farmCount k) (probabilities k f tbl) of
        Inl e \<Rightarrow> Inl e
      | Inr scored \<Rightarrow> Inr (fst (snd (allocate s f scored))))"

fun caLoopProjected ::
  "settings \<Rightarrow> configRun \<Rightarrow> nat list \<Rightarrow> cell list \<Rightarrow> cell list \<Rightarrow> py_error + cell list" where
  "caLoopProjected s k [] tbl projected = Inr projected"
| "caLoopProjected s k (f # fs) tbl projected =
     (case caStep s k f tbl of
        Inl e \<Rightarrow> Inl e
      | Inr (tbl', abortScript) \<Rightarrow>
          (case projectedCells s k f tbl of
             Inl e \<Rightarrow> Inl e
           | Inr merged \<Rightarrow>
               if ConstYesNo s = No \<and> abortScript then Inr merged
               else caLoopProjected s k fs tbl' merged))"

text \<open>
  The cursor on \<^verbatim>\<open>projectedCells\<close> after the loop: the seven lists of
  \<^verbatim>\<open>TARGET_FID\<close> values by the entry of \<^verbatim>\<open>Wind_Turb_Fut\<close>. A row that held a wind
  farm before the run (\<^verbatim>\<open>Y\<close>) enters no list.
\<close>

definition classify :: "cell list \<Rightarrow> classification" where
  "classify projected =
     \<lparr>NCount = map TARGET_FID (filter (\<lambda>row. Wind_Turb_Fut row = ''N'') projected),
      YCount2025 = map TARGET_FID (filter (\<lambda>row. Wind_Turb_Fut row = ''Y (2025)'') projected),
      YCount2030 = map TARGET_FID (filter (\<lambda>row. Wind_Turb_Fut row = ''Y (2030)'') projected),
      YCount2035 = map TARGET_FID (filter (\<lambda>row. Wind_Turb_Fut row = ''Y (2035)'') projected),
      YCount2040 = map TARGET_FID (filter (\<lambda>row. Wind_Turb_Fut row = ''Y (2040)'') projected),
      YCount2045 = map TARGET_FID (filter (\<lambda>row. Wind_Turb_Fut row = ''Y (2045)'') projected),
      YCount2050 = map TARGET_FID (filter (\<lambda>row. Wind_Turb_Fut row = ''Y (2050)'') projected)\<rparr>"

definition runClassification :: "settings \<Rightarrow> configRun \<Rightarrow> cell list \<Rightarrow> py_error + classification" where
  "runClassification s k surface =
     map_sum id classify (caLoopProjected s k [0, 1, 2, 3, 4, 5] surface [])"

text \<open>
  An example of two runs on one surface of four cells without wind farms, in the order
  5, 4, 1, 2 of the table, cell 5 barred by a constraint. The null configuration has the
  predictor \<^verbatim>\<open>Null\<close>, which is 0 in every cell, with the coefficient 0, and borrows the
  fitted intercept 0; the other configuration has one predictor with the coefficient 64
  and no change, whose value is \<open>x\<close> in cell 1 and 0 elsewhere.
\<close>

definition exampleSurface :: "real \<Rightarrow> cell list" where
  "exampleSurface x =
     [(barredFreeCell 5)\<lparr>predictors := [0]\<rparr>, (freeCell 4)\<lparr>predictors := [0]\<rparr>,
      (freeCell 1)\<lparr>predictors := [x]\<rparr>, (freeCell 2)\<lparr>predictors := [0]\<rparr>]"

definition nullRun :: configRun where
  "nullRun = \<lparr>interceptList = [0, 0], configIndex = 0,
     dfCoeffs = coefficientIteration [0] [0], farmCount = 0\<rparr>"

definition otherRun :: configRun where
  "otherRun = \<lparr>interceptList = [0, 0], configIndex = 1,
     dfCoeffs = coefficientIteration [0] [64], farmCount = 0\<rparr>"

definition nullClasses :: classification where
  "nullClasses = \<lparr>NCount = [5, 1, 2], YCount2025 = [4], YCount2030 = [], YCount2035 = [],
     YCount2040 = [], YCount2045 = [], YCount2050 = []\<rparr>"

definition otherClasses :: classification where
  "otherClasses = \<lparr>NCount = [5, 4], YCount2025 = [1], YCount2030 = [2], YCount2035 = [],
     YCount2040 = [], YCount2045 = [], YCount2050 = []\<rparr>"

section \<open>Properties of the double-precision arithmetic\<close>

lemma roundEven_error: "\<bar>of_int (roundEven y) - y\<bar> \<le> 1 / 2"
proof -
  have "of_int \<lfloor>y\<rfloor> \<le> y" "y < of_int \<lfloor>y\<rfloor> + 1" by linarith+
  then show ?thesis by (auto simp: roundEven_def Let_def)
qed

lemma roundEven_ge: "of_int n \<le> y \<Longrightarrow> n \<le> roundEven y"
proof -
  assume "of_int n \<le> y"
  then have "n \<le> \<lfloor>y\<rfloor>" by (simp add: le_floor_iff)
  then show ?thesis by (auto simp: roundEven_def Let_def)
qed

lemma roundEven_le: "y \<le> of_int n \<Longrightarrow> roundEven y \<le> n"
proof -
  assume a: "y \<le> of_int n"
  show ?thesis
  proof (cases "y = of_int n")
    case True
    then show ?thesis by (simp add: roundEven_def)
  next
    case False
    with a have "y < of_int n" by simp
    then have "\<lfloor>y\<rfloor> < n" by (simp add: floor_less_iff)
    then show ?thesis by (auto simp: roundEven_def Let_def)
  qed
qed

lemma roundEven_of_int: "roundEven (of_int n) = n"
  by (simp add: roundEven_def)

lemma expo_bounds:
  assumes "x \<noteq> 0"
  shows "2 powr of_int \<lfloor>log 2 \<bar>x\<bar>\<rfloor> \<le> \<bar>x\<bar>" and "\<bar>x\<bar> < 2 powr (of_int \<lfloor>log 2 \<bar>x\<bar>\<rfloor> + 1)"
proof -
  have pos: "0 < \<bar>x\<bar>" using assms by simp
  then have id: "2 powr log 2 \<bar>x\<bar> = \<bar>x\<bar>" by simp
  have "2 powr of_int \<lfloor>log 2 \<bar>x\<bar>\<rfloor> \<le> 2 powr log 2 \<bar>x\<bar>"
    by (rule powr_mono) simp_all
  then show "2 powr of_int \<lfloor>log 2 \<bar>x\<bar>\<rfloor> \<le> \<bar>x\<bar>"
    by (simp only: id)
  have "log 2 \<bar>x\<bar> < of_int \<lfloor>log 2 \<bar>x\<bar>\<rfloor> + 1" by linarith
  then have "2 powr log 2 \<bar>x\<bar> < 2 powr (of_int \<lfloor>log 2 \<bar>x\<bar>\<rfloor> + 1)"
    by (rule powr_less_mono) simp
  then show "\<bar>x\<bar> < 2 powr (of_int \<lfloor>log 2 \<bar>x\<bar>\<rfloor> + 1)"
    by (simp only: id)
qed

lemma expo_unique:
  assumes "2 powr of_int k \<le> \<bar>x\<bar>" and "\<bar>x\<bar> < 2 powr (of_int k + 1)"
  shows "\<lfloor>log 2 \<bar>x\<bar>\<rfloor> = k"
proof -
  have "0 < (2::real) powr of_int k" by simp
  with assms(1) have pos: "0 < \<bar>x\<bar>" by linarith
  have "of_int k \<le> log 2 \<bar>x\<bar>" using assms(1) pos by (simp add: le_log_iff)
  moreover have "log 2 \<bar>x\<bar> < of_int k + 1" using assms(2) pos by (simp add: log_less_iff)
  ultimately show ?thesis by (simp add: floor_eq_iff)
qed

lemma scaled_bounds:
  assumes "x \<noteq> 0"
  shows "2 ^ 52 \<le> \<bar>x * 2 powr (52 - of_int \<lfloor>log 2 \<bar>x\<bar>\<rfloor>)\<bar>"
    and "\<bar>x * 2 powr (52 - of_int \<lfloor>log 2 \<bar>x\<bar>\<rfloor>)\<bar> < 2 ^ 53"
proof -
  let ?e = "of_int \<lfloor>log 2 \<bar>x\<bar>\<rfloor> :: real"
  have s: "\<bar>x * 2 powr (52 - ?e)\<bar> = \<bar>x\<bar> * 2 powr (52 - ?e)" by (simp add: abs_mult)
  have p: "0 < 2 powr (52 - ?e)" by simp
  have "2 powr ?e * 2 powr (52 - ?e) = 2 powr 52" by (simp add: powr_add[symmetric])
  moreover have "2 powr ?e * 2 powr (52 - ?e) \<le> \<bar>x\<bar> * 2 powr (52 - ?e)"
    using expo_bounds(1)[OF assms] p by (simp add: mult_right_mono)
  ultimately show "2 ^ 52 \<le> \<bar>x * 2 powr (52 - ?e)\<bar>" unfolding s by simp
  have "2 powr (?e + 1) * 2 powr (52 - ?e) = 2 powr 53" by (simp add: powr_add[symmetric])
  moreover have "\<bar>x\<bar> * 2 powr (52 - ?e) < 2 powr (?e + 1) * 2 powr (52 - ?e)"
    using expo_bounds(2)[OF assms] p by (simp add: mult_strict_right_mono)
  ultimately show "\<bar>x * 2 powr (52 - ?e)\<bar> < 2 ^ 53" unfolding s by simp
qed

lemma fl_zero: "fl 0 = 0"
  by (simp add: fl_def)

lemma fl_error: "\<bar>fl x - x\<bar> \<le> \<bar>x\<bar> / 2 ^ 53"
proof (cases "x = 0")
  case True
  then show ?thesis by (simp add: fl_def)
next
  case False
  let ?e = "of_int \<lfloor>log 2 \<bar>x\<bar>\<rfloor> :: real"
  let ?y = "x * 2 powr (52 - ?e)"
  have scale: "?y * 2 powr (?e - 52) = x"
    by (simp add: powr_add[symmetric] mult.assoc)
  have "fl x - x = (of_int (roundEven ?y) - ?y) * 2 powr (?e - 52)"
    using False scale by (simp add: fl_def Let_def algebra_simps)
  then have "\<bar>fl x - x\<bar> = \<bar>of_int (roundEven ?y) - ?y\<bar> * 2 powr (?e - 52)"
    by (simp add: abs_mult)
  also have "\<dots> \<le> (1 / 2) * 2 powr (?e - 52)"
    by (rule mult_right_mono[OF roundEven_error]) simp
  also have "\<dots> = 2 powr ?e / 2 ^ 53"
  proof -
    have "2 powr (?e - 52) = 2 powr ?e * 2 powr (- 52)" by (simp add: powr_add[symmetric])
    also have "(2::real) powr (- 52) = 1 / 2 ^ 52" by (simp add: powr_minus_divide)
    finally show ?thesis by simp
  qed
  also have "\<dots> \<le> \<bar>x\<bar> / 2 ^ 53"
    using expo_bounds(1)[OF False] by (simp add: divide_right_mono)
  finally show ?thesis .
qed

lemma fl_value:
  assumes "x \<noteq> 0"
  shows "fl x = of_int (roundEven (x * 2 powr (52 - of_int \<lfloor>log 2 \<bar>x\<bar>\<rfloor>)))
           * 2 powr (of_int \<lfloor>log 2 \<bar>x\<bar>\<rfloor> - 52)"
  using assms by (simp add: fl_def Let_def)

lemma fl_pos_lower:
  assumes "0 < x"
  shows "2 powr of_int \<lfloor>log 2 \<bar>x\<bar>\<rfloor> \<le> fl x"
proof -
  let ?e = "of_int \<lfloor>log 2 \<bar>x\<bar>\<rfloor> :: real"
  let ?y = "x * 2 powr (52 - ?e)"
  have x0: "x \<noteq> 0" using assms by simp
  have "0 < ?y" using assms by simp
  then have "2 ^ 52 \<le> ?y" using scaled_bounds(1)[OF x0] by simp
  then have "of_int (2 ^ 52) \<le> ?y" by simp
  then have "2 ^ 52 \<le> roundEven ?y" by (rule roundEven_ge)
  then have "(2::real) ^ 52 \<le> of_int (roundEven ?y)" by (metis of_int_le_iff of_int_numeral of_int_power)
  then have A: "2 ^ 52 * 2 powr (?e - 52) \<le> of_int (roundEven ?y) * 2 powr (?e - 52)"
    by (rule mult_right_mono) simp
  have B: "(2::real) ^ 52 * 2 powr (?e - 52) = 2 powr ?e"
  proof -
    have "(2::real) ^ 52 = 2 powr 52" by simp
    then show ?thesis by (simp only: powr_add[symmetric]) simp
  qed
  have "2 powr ?e \<le> of_int (roundEven ?y) * 2 powr (?e - 52)"
    using A unfolding B .
  then show ?thesis unfolding fl_value[OF x0] .
qed

lemma fl_pos_upper:
  assumes "0 < x"
  shows "fl x \<le> 2 powr (of_int \<lfloor>log 2 \<bar>x\<bar>\<rfloor> + 1)"
proof -
  let ?e = "of_int \<lfloor>log 2 \<bar>x\<bar>\<rfloor> :: real"
  let ?y = "x * 2 powr (52 - ?e)"
  have x0: "x \<noteq> 0" using assms by simp
  have "?y \<le> \<bar>?y\<bar>" by simp
  also have "\<dots> \<le> 2 ^ 53" using scaled_bounds(2)[OF x0] by simp
  finally have "?y \<le> of_int (2 ^ 53)" by simp
  then have "roundEven ?y \<le> 2 ^ 53" by (rule roundEven_le)
  then have "of_int (roundEven ?y) \<le> (2::real) ^ 53" by (metis of_int_le_iff of_int_numeral of_int_power)
  then have A: "of_int (roundEven ?y) * 2 powr (?e - 52) \<le> 2 ^ 53 * 2 powr (?e - 52)"
    by (rule mult_right_mono) simp
  have B: "(2::real) ^ 53 * 2 powr (?e - 52) = 2 powr (?e + 1)"
  proof -
    have "(2::real) ^ 53 = 2 powr 53" by simp
    then show ?thesis by (simp only: powr_add[symmetric]) (simp add: add.commute)
  qed
  have "of_int (roundEven ?y) * 2 powr (?e - 52) \<le> 2 powr (?e + 1)"
    using A unfolding B .
  then show ?thesis unfolding fl_value[OF x0] .
qed

lemma fl_pos: "0 < x \<Longrightarrow> 0 < fl x"
proof -
  assume "0 < x"
  then have "2 powr of_int \<lfloor>log 2 \<bar>x\<bar>\<rfloor> \<le> fl x" by (rule fl_pos_lower)
  moreover have "0 < (2::real) powr of_int \<lfloor>log 2 \<bar>x\<bar>\<rfloor>" by simp
  ultimately show ?thesis by linarith
qed

lemma fl_nonneg: "0 \<le> x \<Longrightarrow> 0 \<le> fl x"
  using fl_pos[of x] by (cases "x = 0") (simp_all add: fl_zero less_eq_real_def)

lemma fl_exactI:
  assumes "2 powr of_int k \<le> \<bar>x\<bar>" and "\<bar>x\<bar> < 2 powr (of_int k + 1)"
    and "x * 2 powr (52 - of_int k) = of_int m"
  shows "fl x = x"
proof -
  have "0 < (2::real) powr of_int k" by simp
  with assms(1) have x0: "x \<noteq> 0" by auto
  have e: "\<lfloor>log 2 \<bar>x\<bar>\<rfloor> = k" using assms(1,2) by (rule expo_unique)
  have "fl x = of_int (roundEven (of_int m)) * 2 powr (of_int k - 52)"
    unfolding fl_value[OF x0] e assms(3) ..
  also have "\<dots> = (x * 2 powr (52 - of_int k)) * 2 powr (of_int k - 52)"
    by (simp only: roundEven_of_int assms(3))
  also have "\<dots> = x"
    by (simp add: powr_add[symmetric] mult.assoc)
  finally show ?thesis .
qed

lemma fl_one: "fl 1 = 1"
  by (rule fl_exactI[of 0 _ "2 ^ 52"]) simp_all

lemma fl_two: "fl 2 = 2"
  by (rule fl_exactI[of 1 _ "2 ^ 52"]) simp_all

lemma fl_half: "fl (1 / 2) = 1 / 2"
  by (rule fl_exactI[of "- 1" _ "2 ^ 52"]) (simp_all add: powr_minus_divide)

lemma fl_64: "fl 64 = 64"
  by (rule fl_exactI[of 6 _ "2 ^ 52"]) simp_all


lemma fl_le_one:
  assumes "0 < x" and "x \<le> 1"
  shows "fl x \<le> 1"
proof (cases "x = 1")
  case True
  then show ?thesis by (simp add: fl_one)
next
  case False
  with assms have "x < 1" by simp
  then have "log 2 \<bar>x\<bar> < 0" using assms(1) by simp
  then have "\<lfloor>log 2 \<bar>x\<bar>\<rfloor> < 0" by (simp add: floor_less_iff)
  then have "of_int \<lfloor>log 2 \<bar>x\<bar>\<rfloor> + 1 \<le> (0::real)" by linarith
  then have "(2::real) powr (of_int \<lfloor>log 2 \<bar>x\<bar>\<rfloor> + 1) \<le> 2 powr 0"
    by (intro powr_mono) simp_all
  with fl_pos_upper[OF assms(1)] show ?thesis by simp
qed

lemma roundEven_below_half:
  assumes "of_int n \<le> y" and "y < of_int n + 1 / 2"
  shows "roundEven y = n"
proof -
  have "\<lfloor>y\<rfloor> = n" using assms by (simp add: floor_eq_iff)
  with assms show ?thesis by (simp add: roundEven_def Let_def)
qed

lemma fl_near_one:
  assumes "1 \<le> x" and "x < 1 + 1 / 2 ^ 53"
  shows "fl x = 1"
proof -
  have x0: "x \<noteq> 0" using assms by simp
  have ax: "\<bar>x\<bar> = x" using assms by simp
  have e: "\<lfloor>log 2 \<bar>x\<bar>\<rfloor> = 0"
    by (rule expo_unique) (use assms ax in simp_all)
  have "roundEven (x * 2 powr 52) = 2 ^ 52"
    by (rule roundEven_below_half) (use assms in \<open>simp_all add: field_simps\<close>)
  then have "fl x = of_int (2 ^ 52) * 2 powr (- 52)"
    unfolding fl_value[OF x0] e by simp
  also have "\<dots> = 1" by (simp add: powr_minus_divide)
  finally show ?thesis .
qed

lemma maxFloat_large: "1 \<le> maxFloat"
proof -
  have "(1::real) \<le> 2 ^ 1023" by (rule one_le_power) simp
  moreover have "(1::real) \<le> 2 - 1 / 2 ^ 52" by simp
  ultimately have "1 * 1 \<le> (2 - 1 / 2 ^ 52) * (2::real) ^ 1023"
    by (intro mult_mono) simp_all
  then show ?thesis by (simp add: maxFloat_def)
qed

lemma fl_upper:
  assumes "0 \<le> x"
  shows "fl x \<le> x + x / 2 ^ 53"
proof -
  have "fl x - x \<le> \<bar>fl x - x\<bar>" by simp
  also have "\<dots> \<le> \<bar>x\<bar> / 2 ^ 53" by (rule fl_error)
  also have "\<dots> = x / 2 ^ 53" using assms by simp
  finally show ?thesis by linarith
qed


lemma logistic_zero: "logistic 0 = 1 / 2"
  using maxFloat_large by (simp add: logistic_def Let_def eFloat_def fl_one fl_two fl_half)

lemma eFloat_64: "eFloat powr (- 64) \<le> 1 / 2 ^ 64"
proof -
  have "(2::real) \<le> eFloat" by (simp add: eFloat_def)
  then have "(2::real) ^ 64 \<le> eFloat ^ 64" by (rule power_mono) simp
  moreover have "eFloat powr 64 = eFloat ^ 64"
    using powr_realpow[of eFloat 64] by (simp add: eFloat_def)
  ultimately have "(2::real) ^ 64 \<le> eFloat powr 64" by simp
  moreover have ne: "eFloat \<noteq> 0" by (simp add: eFloat_def)
  ultimately have "1 / eFloat powr 64 \<le> 1 / 2 ^ 64"
    by (intro divide_left_mono) simp_all
  then show ?thesis by (simp add: powr_minus_divide)
qed

lemma logistic_64: "logistic 64 = 1"
proof -
  let ?t = "fl (eFloat powr (- 64))"
  have p: "0 < eFloat powr (- 64)" by (simp add: eFloat_def)
  have t0: "0 < ?t" using p by (rule fl_pos)
  have "?t \<le> eFloat powr (- 64) + eFloat powr (- 64) / 2 ^ 53"
    using p by (intro fl_upper) simp
  also have "\<dots> \<le> 2 * eFloat powr (- 64)" using p by simp
  also have "\<dots> \<le> 2 * (1 / 2 ^ 64)" using eFloat_64 by simp
  finally have t1: "?t \<le> 1 / 2 ^ 63" by simp
  have "?t < 1 / 2 ^ 53"
  proof -
    have "(1::real) / 2 ^ 63 < 1 / 2 ^ 53" by simp
    with t1 show ?thesis by linarith
  qed
  with t0 have "fl (1 + ?t) = 1" by (intro fl_near_one) simp_all
  moreover have "\<not> ?t > maxFloat"
  proof -
    have "(1::real) / 2 ^ 63 \<le> 1" by simp
    with t1 maxFloat_large show ?thesis by linarith
  qed
  ultimately show ?thesis by (simp add: logistic_def Let_def fl_one)
qed


lemma prob_no_predictors: "prob 0 coeff [] = 1 / 2"
  by (simp add: prob_def floatSum_def fl_zero logistic_zero)

lemma prob_no_coefficients: "prob 0 [] x = 1 / 2"
  by (simp add: prob_def floatSum_def fl_zero logistic_zero)

lemma prob_cell_one: "prob 0 [64] [1] = 1"
  by (simp add: prob_def floatSum_def fl_64 logistic_64)

lemma prob_cell_zero: "prob 0 [c] [0] = 1 / 2"
  by (simp add: prob_def floatSum_def fl_zero logistic_zero)





lemma newCoefficient_zero: "newCoefficient 0 c = c"
  by (simp add: newCoefficient_def)



lemma fl_quarter: "fl (1 / 4) = 1 / 4"
  by (rule fl_exactI[of "- 2" _ "2 ^ 52"]) (simp_all add: powr_minus_divide)

lemma fl_unit:
  assumes "0 \<le> x" and "x \<le> 1"
  shows "0 \<le> fl x \<and> fl x \<le> 1"
proof (cases "x = 0")
  case True
  then show ?thesis by (simp add: fl_zero)
next
  case False
  with assms have "0 < x" by simp
  with assms(2) fl_le_one[of x] fl_pos[of x] show ?thesis by simp
qed

section \<open>Properties of the disagreement table\<close>

lemma zipStar_nth:
  "\<forall>xs \<in> set xss. length xs = n \<Longrightarrow> xss \<noteq> [] \<Longrightarrow> k < n \<Longrightarrow> m < length xss \<Longrightarrow>
   zipStar xss ! k ! m = xss ! m ! k"
proof (induction n arbitrary: xss k)
  case 0
  then show ?case by simp
next
  case (Suc n)
  from Suc.prems have ne: "\<not> (xss = [] \<or> (\<exists>xs \<in> set xss. xs = []))" by auto
  then have z: "zipStar xss = map hd xss # zipStar (map tl xss)"
    by (subst zipStar.simps) simp
  have "xss ! m \<in> set xss" using Suc.prems by simp
  then have m_ne: "xss ! m \<noteq> []" using ne by auto
  show ?case
  proof (cases k)
    case 0
    then show ?thesis using m_ne z Suc.prems by (simp add: hd_conv_nth)
  next
    case (Suc k')
    have "\<forall>xs \<in> set (map tl xss). length xs = n" using Suc.prems by auto
    moreover have "map tl xss \<noteq> []" using Suc.prems by simp
    moreover have "k' < n" using Suc Suc.prems by simp
    moreover have "m < length (map tl xss)" using Suc.prems by simp
    ultimately have "zipStar (map tl xss) ! k' ! m = map tl xss ! m ! k'"
      by (rule Suc.IH)
    then show ?thesis using Suc z m_ne Suc.prems by (simp add: nth_tl)
  qed
qed

lemma length_tableRows: "length (tableRows null other) = 7"
  by (simp add: tableRows_def classLists_def)

lemma length_tableRows_row: "r \<in> set (tableRows null other) \<Longrightarrow> length r = 8"
  by (auto simp: tableRows_def tableRow_def classLists_def)

lemma length_bottomRow: "length (bottomRow rows) = 8"
  by (simp add: bottomRow_def)

lemma transList_totals:
  assumes "k < 8"
  shows "transList (tableRows null other) ! k ! 7 = bottomRow (tableRows null other) ! k"
proof -
  let ?rows = "tableRows null other"
  have "zipStar (listOfLists ?rows) ! k ! 7 = listOfLists ?rows ! 7 ! k"
    by (rule zipStar_nth[where n=8])
       (use assms in \<open>auto simp: listOfLists_def length_bottomRow length_tableRows
          length_tableRows_row\<close>)
  then show ?thesis
    by (simp add: transList_def listOfLists_def nth_append length_tableRows)
qed

lemma quantDis_tableRows: "quantDis (tableRows null other) = 0"
  by (simp add: quantDis_def transList_totals)

lemma rows_only2050_onlyN:
  "tableRows only2050 onlyN =
     [[0, 0, 0, 0, 0, 0, 0, 0], [0, 0, 0, 0, 0, 0, 0, 0], [0, 0, 0, 0, 0, 0, 0, 0],
      [0, 0, 0, 0, 0, 0, 0, 0], [0, 0, 0, 0, 0, 0, 0, 0], [0, 0, 0, 0, 0, 0, 0, 0],
      [1, 0, 0, 0, 0, 0, 0, 1]]"
  by (simp add: tableRows_def tableRow_def classLists_def countIn_def onlyN_def only2050_def)

text \<open>
  Claim C10. For every table the code builds, each entry \<^verbatim>\<open>transList[k][7]\<close> is
  \<^verbatim>\<open>bottomRow[k]\<close>, so the primary quantity disagreement is exactly 0; whenever
  the alternative value is not 0, the branch for unequal values is taken: the alternative
  value is reported as the quantity disagreement and the allocation disagreement is
  raised by exactly the alternative value.
\<close>

theorem quantDis_always_zero:
  "(\<forall>k < 7. transList (tableRows null other) ! k ! 7 = bottomRow (tableRows null other) ! k)
   \<and> quantDis (tableRows null other) = 0
   \<and> (quantDisStar (tableRows null other) \<noteq> 0 \<longrightarrow>
        quantDis (tableRows null other) \<noteq> real_of_int (quantDisStar (tableRows null other))
        \<and> qFinal (tableRows null other) = real_of_int (quantDisStar (tableRows null other))
        \<and> aFinal (tableRows null other) =
            absoDis (tableRows null other) + real_of_int (quantDisStar (tableRows null other)))"
proof -
  let ?rows = "tableRows null other"
  have q: "quantDis ?rows = 0" by (rule quantDis_tableRows)
  have nonneg: "0 \<le> quantDisStar ?rows"
    by (simp add: quantDisStar_def Let_def)
  have "\<forall>k < 7. transList ?rows ! k ! 7 = bottomRow ?rows ! k"
    by (simp add: transList_totals)
  moreover have "quantDisStar ?rows \<noteq> 0 \<longrightarrow>
        quantDis ?rows \<noteq> real_of_int (quantDisStar ?rows)
        \<and> qFinal ?rows = real_of_int (quantDisStar ?rows)
        \<and> aFinal ?rows = absoDis ?rows + real_of_int (quantDisStar ?rows)"
    using q nonneg by (simp add: qFinal_def aFinal_def)
  ultimately show ?thesis using q by blast
qed

theorem quantDis_always_zero_witness:
  "quantDisStar (tableRows only2050 onlyN) \<noteq> 0
   \<and> quantDis (tableRows only2050 onlyN) = 0
   \<and> qFinal (tableRows only2050 onlyN) = 1
   \<and> aFinal (tableRows only2050 onlyN) = absoDis (tableRows only2050 onlyN) + 1"
proof -
  have s: "quantDisStar (tableRows only2050 onlyN) = 1"
    unfolding rows_only2050_onlyN by code_simp
  show ?thesis
    using quantDis_always_zero [of only2050 onlyN] s by simp
qed

section \<open>Properties of the coefficient iteration\<close>

lemma colsUpto_Suc:
  "colsUpto change c (Suc n) =
     colsUpto change c n @ [newCoefficients change (colsUpto change c n ! n)]"
  by (simp add: colsUpto_def)

lemma colsUpto_base: "colsUpto change c 0 = [c]"
  by (simp add: colsUpto_def)




lemma coefficientIteration_colsUpto: "coefficientIteration change c = colsUpto change c 6"
  by (simp add: coefficientIteration_def colsUpto_def)









section \<open>Properties of the field of a time step\<close>

text \<open>
  Claim C1, as stated: with constraints and neighbourhood effects both enabled the score
  is the probability alone. For a cell barred by a constraint, at the first time step with
  two existing wind farms, the code's field is 0, not the probability 1/2.
\<close>

theorem both_enabled_counterexample:
  "fieldValue (exampleSettings No No 1) 0 2 barredCell = Inr 0
   \<and> spec_compositeScore (enabled (ConstYesNo (exampleSettings No No 1)))
        (enabled (NeighYesNo (exampleSettings No No 1))) (Constraint barredCell)
        (Neighborhood barredCell) (Probab barredCell) = 1 / 2"
  by (simp add: fieldValue_def timeSteps_def barredCell_def spec_compositeScore_def enabled_def
      exampleSettings_def fl_zero)

text \<open>
  Claim C1, amended. Outside the cold start (the first time step with fewer than two
  existing wind farms), the field that ranks the cells is the product, in double
  precision, of the probability and of the factor of each subsystem in use:
  eligibility \<sqdot> neighbourhood \<sqdot> p when constraints and neighbourhood effects are both
  enabled, eligibility \<sqdot> p when only the constraints are enabled, neighbourhood \<sqdot> p when
  only the neighbourhood effects are enabled, and p when both are switched off. The
  neighbourhood factor is the field \<^verbatim>\<open>Neighborhood\<close> in 2025 and \<^verbatim>\<open>Neighb_Update\<close>
  afterwards; it is read only where the neighbourhood effects are enabled, and the field
  \<^verbatim>\<open>Neighb_Update\<close> of a run without them is null.
\<close>

theorem fieldValue_table:
  assumes "\<not> (timeSteps ! f = ''2025'' \<and> cnt < 2)"
    and "enabled (NeighYesNo s) \<longrightarrow> neighborhoodField f c = Some n"
  shows "fieldValue s f cnt c =
     Inr (if enabled (ConstYesNo s) \<and> enabled (NeighYesNo s)
            then fl (fl (Constraint c * n) * Probab c)
          else if enabled (ConstYesNo s) \<and> \<not> enabled (NeighYesNo s)
            then fl (Constraint c * Probab c)
          else if \<not> enabled (ConstYesNo s) \<and> enabled (NeighYesNo s)
            then fl (n * Probab c)
          else Probab c)"
  using assms
  by (cases "ConstYesNo s"; cases "NeighYesNo s")
     (auto simp: fieldValue_def enabled_def neighborhoodField_def split: if_splits)

theorem fieldValue_table_witness:
  "\<not> (timeSteps ! 1 = ''2025'' \<and> (0::int) < 2)
   \<and> neighborhoodField 1 (barredCell\<lparr>Constraint := 1\<rparr>) = Some (1 / 2)
   \<and> fieldValue (exampleSettings No No 1) 1 0 (barredCell\<lparr>Constraint := 1\<rparr>) = Inr (1 / 4)
   \<and> fieldValue (exampleSettings Yes No 1) 1 0 (barredCell\<lparr>Constraint := 1\<rparr>) = Inr (1 / 4)
   \<and> neighborhoodField 1 ((freeCell 1)\<lparr>Probab := 1 / 2\<rparr>) = None
   \<and> \<not> enabled (NeighYesNo (exampleSettings No Yes 1))
   \<and> fieldValue (exampleSettings No Yes 1) 1 0 ((freeCell 1)\<lparr>Probab := 1 / 2\<rparr>) = Inr (1 / 2)
   \<and> \<not> enabled (NeighYesNo (exampleSettings Yes Yes 1))
   \<and> fieldValue (exampleSettings Yes Yes 1) 1 0 ((freeCell 1)\<lparr>Probab := 1 / 2\<rparr>) = Inr (1 / 2)"
proof -
  let ?c = "barredCell\<lparr>Constraint := 1\<rparr>" and ?d = "(freeCell 1)\<lparr>Probab := 1 / 2\<rparr>"
  have h: "\<not> (timeSteps ! 1 = ''2025'' \<and> (0::int) < 2)"
    by (simp add: timeSteps_def)
  have n: "neighborhoodField 1 ?c = Some (1 / 2)"
    by (simp add: neighborhoodField_def timeSteps_def barredCell_def)
  have m: "neighborhoodField 1 ?d = None"
    by (simp add: neighborhoodField_def timeSteps_def freeCell_def)
  have off: "\<not> enabled (NeighYesNo (exampleSettings No Yes 1))"
    "\<not> enabled (NeighYesNo (exampleSettings Yes Yes 1))"
    by (simp_all add: enabled_def exampleSettings_def)
  have on: "enabled (NeighYesNo (exampleSettings No No 1)) \<longrightarrow> neighborhoodField 1 ?c = Some (1 / 2)"
    "enabled (NeighYesNo (exampleSettings Yes No 1)) \<longrightarrow> neighborhoodField 1 ?c = Some (1 / 2)"
    using n by simp_all
  have no: "enabled (NeighYesNo (exampleSettings No Yes 1)) \<longrightarrow> neighborhoodField 1 ?d = Some 0"
    "enabled (NeighYesNo (exampleSettings Yes Yes 1)) \<longrightarrow> neighborhoodField 1 ?d = Some 0"
    using off by simp_all
  show ?thesis
    using h n m off fieldValue_table [OF h on(1)] fieldValue_table [OF h on(2)]
      fieldValue_table [OF h no(1)] fieldValue_table [OF h no(2)]
    by (simp add: enabled_def barredCell_def freeCell_def exampleSettings_def fl_half fl_quarter)
qed

section \<open>Properties of the neighbourhood effect factors\<close>

lemmas example_step_defs =
  caStep_def probabilities_def allocate_def exampleSettings_def exampleRun_def freeCell_def
  fieldValue_def timeSteps_def prob_no_predictors label_def convertAll_def
  neighborhoodEffectsUpdate_def selectByLocation_def updatedFactor_def writeBack_def Let_def
  fl_zero fl_one fl_half

lemma neighborhoodEffect_isolated:
  "length (selectByLocation nr preparedSurface gridCell) \<le> 1 \<Longrightarrow>
   neighborhoodEffect nr preparedSurface gridCell = 0"
  by (simp add: neighborhoodEffect_def Let_def)

text \<open>
  Where the cell is a row of the layer and lies within its own search distance, both
  computations of the factor give a value in [0, 1].
\<close>

lemma count_le_total:
  assumes "x \<in> set xs" and "TARGET_FID x = g"
  shows "int (length (filter (\<lambda>r. Q r \<and> TARGET_FID r \<noteq> g) xs)) \<le> int (length xs) - 1"
proof -
  have "length (filter (\<lambda>r. Q r \<and> TARGET_FID r \<noteq> g) xs)
      \<le> length (filter (\<lambda>r. TARGET_FID r \<noteq> g) xs)"
    by (induction xs) auto
  moreover have "length (filter (\<lambda>r. TARGET_FID r = g) xs)
      + length (filter (\<lambda>r. TARGET_FID r \<noteq> g) xs) = length xs"
    using sum_length_filter_compl[of "\<lambda>r. TARGET_FID r = g" xs] by simp
  moreover have "filter (\<lambda>r. TARGET_FID r = g) xs \<noteq> []"
    using assms by (auto simp: filter_empty_conv)
  then have "0 < length (filter (\<lambda>r. TARGET_FID r = g) xs)" by simp
  ultimately show ?thesis by linarith
qed

lemma quotient_bounds:
  assumes "0 \<le> c" and "c \<le> t" and "0 < (t::int)"
  shows "0 \<le> real_of_int c / real_of_int t \<and> real_of_int c / real_of_int t \<le> 1"
  using assms by simp

lemma neighborhoodEffect_bounds:
  assumes "x \<in> set preparedSurface" and "TARGET_FID x = gridCell" and "nr gridCell gridCell"
  shows "0 \<le> neighborhoodEffect nr preparedSurface gridCell
     \<and> neighborhoodEffect nr preparedSurface gridCell \<le> 1"
proof -
  let ?adj = "selectByLocation nr preparedSurface gridCell"
  have "x \<in> set ?adj" using assms by (simp add: selectByLocation_def)
  then have le: "int (length (filter (\<lambda>r. Wind_Turb r = ''Y'' \<and> TARGET_FID r \<noteq> gridCell) ?adj))
      \<le> int (length ?adj) - 1"
    using assms(2) by (rule count_le_total)
  show ?thesis
  proof (cases "int (length ?adj) - 1 > 0")
    case True
    with le quotient_bounds[of "int (length (filter (\<lambda>r. Wind_Turb r = ''Y'' \<and> TARGET_FID r \<noteq> gridCell) ?adj))"
        "int (length ?adj) - 1"]
    show ?thesis by (simp add: neighborhoodEffect_def Let_def fl_unit)
  next
    case False
    then show ?thesis by (simp add: neighborhoodEffect_def Let_def)
  qed
qed


text \<open>
  Claim C7. The claim: a cell without neighbours within the search distance has the factor
  0, and no division by zero is raised, in the full scan before the run and in the update
  after every time step. On a surface of two cells out of each other's reach, without wind
  farms, the full scan gives the factor 0; with the neighbourhood effects in use and the
  constraints switched off, the first time step converts cell 1 and the update of its
  factor then divides by its zero neighbours.
\<close>

theorem update_divides_by_zero:
  "neighborhoodEffect (near (exampleSettings Yes No 1)) [freeCell 1, freeCell 3] 1 = 0
   \<and> caStep (exampleSettings Yes No 1) exampleRun 0 [freeCell 1, freeCell 3]
       = Inl ZeroDivisionError"
  by (simp add: neighborhoodEffect_def example_step_defs)

text \<open>
  Claim C4. The claim: after the update of a time step, every neighbour of a newly
  converted cell has the factor converted neighbours / all neighbours over its own full
  neighbour set. On a surface of three cells in a row without wind farms, the first time
  step converts cell 1; cell 2 then has the neighbours 1 (converted) and 3 (not
  converted), so the factor of the claim is 1/2, while the update, which counts the
  neighbours of cell 2 only among the cells around cell 1, writes 1.
\<close>

theorem update_counts_within_adjacent:
  "\<exists>tbl'. caStep (exampleSettings Yes No 1) exampleRun 0 [freeCell 1, freeCell 2, freeCell 3]
            = Inr (tbl', False)
     \<and> map Wind_Turb_Fut tbl' = [''Y (2025)'', ''N'', ''N'']
     \<and> map Neighb_Update tbl' = [Some 0, Some 1, Some 0]
     \<and> spec_factor (near (exampleSettings Yes No 1)) tbl' 2 = 1 / 2"
  by (simp add: example_step_defs spec_factor_def)

section \<open>Properties of the loop over the time steps\<close>

lemma calculateField_rows:
  "calculateField s f cnt cs = Inr cs' \<Longrightarrow>
   list_all2 (\<lambda>c c'. \<exists>v. fieldValue s f cnt c = Inr v \<and> c' = c\<lparr>Probab_Year := v\<rparr>) cs cs'"
proof (induction cs arbitrary: cs')
  case Nil
  then show ?case by simp
next
  case (Cons c cs)
  then show ?case by (auto split: sum.splits)
qed

lemma label_not_N: "label f \<noteq> ''N''"
  by (simp add: label_def)

lemma label_has_Y: "CHR ''Y'' \<in> set (label f)"
  by (simp add: label_def)

lemma allocate_table:
  "allocate s f tbl = (tbl', merged, a) \<Longrightarrow>
   \<exists>cellNoList. tbl' = map (\<lambda>row. if TARGET_FID row \<in> set cellNoList
                                    then row\<lparr>Wind_Turb_Fut := label f\<rparr> else row) tbl"
  by (auto simp: allocate_def Let_def split: prod.splits)

lemma writeBack_fold_fields:
  "Wind_Turb_Fut (fold (\<lambda>(gridCell, v) r. if TARGET_FID r = gridCell then r\<lparr>Neighb_Update := Some v\<rparr> else r) ups row) = Wind_Turb_Fut row
  \<and> TARGET_FID (fold (\<lambda>(gridCell, v) r. if TARGET_FID r = gridCell then r\<lparr>Neighb_Update := Some v\<rparr> else r) ups row) = TARGET_FID row
  \<and> Probab (fold (\<lambda>(gridCell, v) r. if TARGET_FID r = gridCell then r\<lparr>Neighb_Update := Some v\<rparr> else r) ups row) = Probab row
  \<and> predictors (fold (\<lambda>(gridCell, v) r. if TARGET_FID r = gridCell then r\<lparr>Neighb_Update := Some v\<rparr> else r) ups row) = predictors row
  \<and> Constraint (fold (\<lambda>(gridCell, v) r. if TARGET_FID r = gridCell then r\<lparr>Neighb_Update := Some v\<rparr> else r) ups row) = Constraint row"
  by (induction ups arbitrary: row) (auto split: prod.splits)

lemma writeBack_fields:
  "Wind_Turb_Fut (writeBack ups row) = Wind_Turb_Fut row"
  "TARGET_FID (writeBack ups row) = TARGET_FID row"
  "Probab (writeBack ups row) = Probab row"
  "predictors (writeBack ups row) = predictors row"
  "Constraint (writeBack ups row) = Constraint row"
  by (simp_all add: writeBack_def Let_def writeBack_fold_fields)

lemma caStep_keeps:
  assumes "caStep s k f tbl = Inr (tbl', a)"
  shows "list_all2 keepsFarm tbl tbl'"
proof -
  from assms obtain scored t1 merged where
    sc: "calculateField s f (farmCount k) (probabilities k f tbl) = Inr scored"
    and al: "allocate s f scored = (t1, merged, a)"
    and fin: "tbl' = t1 \<or> (\<exists>ups. tbl' = map (writeBack ups) t1)"
    by (auto simp: caStep_def neighborhoodEffectsUpdate_def split: sum.splits prod.splits if_splits)
  have 1: "list_all2 (\<lambda>c c'. Wind_Turb_Fut c' = Wind_Turb_Fut c) tbl scored"
  proof -
    have "list_all2 (\<lambda>c c'. Wind_Turb_Fut c' = Wind_Turb_Fut c) (probabilities k f tbl) scored"
      using calculateField_rows[OF sc] by (rule list_all2_mono) auto
    then show ?thesis by (simp add: probabilities_def list_all2_map1)
  qed
  from allocate_table[OF al] obtain ns where
    t1: "t1 = map (\<lambda>row. if TARGET_FID row \<in> set ns then row\<lparr>Wind_Turb_Fut := label f\<rparr> else row) scored"
    by blast
  have 2: "list_all2 keepsFarm scored t1"
    unfolding t1 by (simp add: list_all2_map2 list_all2_same keepsFarm_def label_not_N label_has_Y)
  have 3: "list_all2 (\<lambda>c c'. Wind_Turb_Fut c' = Wind_Turb_Fut c) t1 tbl'"
    using fin by (auto simp: list_all2_map2 list_all2_same writeBack_fields)
  have "list_all2 keepsFarm tbl t1"
    using list_all2_trans[of "\<lambda>c c'. Wind_Turb_Fut c' = Wind_Turb_Fut c" keepsFarm keepsFarm
        tbl scored t1] 1 2
    by (auto simp: keepsFarm_def)
  then show ?thesis
    using list_all2_trans[of keepsFarm "\<lambda>c c'. Wind_Turb_Fut c' = Wind_Turb_Fut c" keepsFarm
        tbl t1 tbl'] 3
    by (auto simp: keepsFarm_def)
qed

lemma keepsFarm_refl: "list_all2 keepsFarm xs xs"
  by (simp add: list_all2_same keepsFarm_def)

lemma keepsFarm_trans:
  "list_all2 keepsFarm xs ys \<Longrightarrow> list_all2 keepsFarm ys zs \<Longrightarrow> list_all2 keepsFarm xs zs"
  using list_all2_trans[of keepsFarm keepsFarm keepsFarm xs ys zs]
  by (auto simp: keepsFarm_def)

lemma caLoop_sorted:
  "caLoop s k fs tbl = (trace, err) \<Longrightarrow> sorted_wrt (list_all2 keepsFarm) (tbl # trace)"
proof (induction fs arbitrary: tbl trace err)
  case Nil
  then show ?case by simp
next
  case (Cons f fs)
  show ?case
  proof (cases "caStep s k f tbl")
    case (Inl e)
    with Cons.prems show ?thesis by simp
  next
    case (Inr r)
    obtain tbl' a where r: "r = (tbl', a)" by (cases r)
    have st: "list_all2 keepsFarm tbl tbl'" using Inr r by (simp add: caStep_keeps)
    show ?thesis
    proof (cases "ConstYesNo s = No \<and> a")
      case True
      with Cons.prems Inr r st show ?thesis by auto
    next
      case False
      obtain tr e where l: "caLoop s k fs tbl' = (tr, e)" by (cases "caLoop s k fs tbl'")
      from Cons.IH[OF l] have ih: "sorted_wrt (list_all2 keepsFarm) (tbl' # tr)" .
      from False Cons.prems Inr r l have tr: "trace = tbl' # tr" by auto
      have "\<forall>y \<in> set (tbl' # tr). list_all2 keepsFarm tbl y"
        using st ih by (auto intro: keepsFarm_trans)
      with ih tr show ?thesis by simp
    qed
  qed
qed

text \<open>
  Claim C5. Along the states of the surface during the loop over the time steps (the state
  before the loop and the state after each completed step), a row whose entry of
  \<^verbatim>\<open>Wind_Turb_Fut\<close> is not \<^verbatim>\<open>N\<close> at one state (it holds an existing or a projected
  wind farm) has an entry other than \<^verbatim>\<open>N\<close> at every later state; the surface keeps
  its rows.
\<close>

theorem conversion_monotonic:
  assumes "caLoop s k fs tbl = (trace, err)"
    and "t < t'" and "t' < length (tbl # trace)" and "i < length tbl"
    and "Wind_Turb_Fut ((tbl # trace) ! t ! i) \<noteq> ''N''"
  shows "length ((tbl # trace) ! t') = length tbl
    \<and> Wind_Turb_Fut ((tbl # trace) ! t' ! i) \<noteq> ''N''"
proof -
  have s: "sorted_wrt (list_all2 keepsFarm) (tbl # trace)"
    using assms(1) by (rule caLoop_sorted)
  have a: "list_all2 keepsFarm ((tbl # trace) ! t) ((tbl # trace) ! t')"
    using s assms(2,3) by (simp only: sorted_wrt_iff_nth_less)
  have b: "list_all2 keepsFarm tbl ((tbl # trace) ! t)"
  proof (cases t)
    case 0 then show ?thesis by (simp add: keepsFarm_refl)
  next
    case (Suc n)
    then have "0 < t" by simp
    with s assms(2,3) have "list_all2 keepsFarm ((tbl # trace) ! 0) ((tbl # trace) ! t)"
      by (simp only: sorted_wrt_iff_nth_less)
    then show ?thesis by simp
  qed
  have l: "length ((tbl # trace) ! t) = length tbl" using b by (simp add: list_all2_lengthD)
  have l': "length ((tbl # trace) ! t') = length tbl" using a l by (simp add: list_all2_lengthD)
  from a l assms(4) have "keepsFarm ((tbl # trace) ! t ! i) ((tbl # trace) ! t' ! i)"
    by (simp add: list_all2_nthD)
  with assms(5) l' show ?thesis by (simp add: keepsFarm_def)
qed

lemma two_step_run:
  "\<exists>t1 t2. caLoop (exampleSettings Yes Yes 1) exampleRun [0, 1] [freeCell 1, freeCell 2]
              = ([t1, t2], None)
     \<and> map Wind_Turb_Fut t1 = [''Y (2025)'', ''N'']
     \<and> map Wind_Turb_Fut t2 = [''Y (2025)'', ''Y (2030)'']"
  by (simp add: example_step_defs)

theorem conversion_monotonic_witness:
  "Wind_Turb_Fut
     (([freeCell 1, freeCell 2]
        # fst (caLoop (exampleSettings Yes Yes 1) exampleRun [0, 1] [freeCell 1, freeCell 2]))
       ! 1 ! 0) \<noteq> ''N''
   \<and> Wind_Turb_Fut
     (([freeCell 1, freeCell 2]
        # fst (caLoop (exampleSettings Yes Yes 1) exampleRun [0, 1] [freeCell 1, freeCell 2]))
       ! 2 ! 0) \<noteq> ''N''"
proof -
  obtain t1 t2 where
    run: "caLoop (exampleSettings Yes Yes 1) exampleRun [0, 1] [freeCell 1, freeCell 2]
            = ([t1, t2], None)"
    and l1: "map Wind_Turb_Fut t1 = [''Y (2025)'', ''N'']"
    using two_step_run by (elim exE conjE)
  have len: "length t1 = 2"
    using arg_cong[OF l1, of length] by simp
  have first: "Wind_Turb_Fut (t1 ! 0) = ''Y (2025)''"
    using nth_map[of 0 t1 Wind_Turb_Fut] l1 len by simp
  have before: "Wind_Turb_Fut (([freeCell 1, freeCell 2] # [t1, t2]) ! 1 ! 0) \<noteq> ''N''"
    using first by simp
  have after: "Wind_Turb_Fut (([freeCell 1, freeCell 2] # [t1, t2]) ! 2 ! 0) \<noteq> ''N''"
    using conversion_monotonic [OF run, of 1 2 0] before by simp
  show ?thesis
    unfolding run using before after by simp
qed

lemma list_all2_set2:
  "list_all2 R xs ys \<Longrightarrow> y \<in> set ys \<Longrightarrow> \<exists>x \<in> set xs. R x y"
  by (induction rule: list_all2_induct) auto

lemma caStep_Probab:
  assumes "caStep s k f tbl = Inr (tbl', a)" and "c \<in> set tbl'"
  shows "Probab c = prob (interceptList k ! configIndex k) (dfCoeffs k ! Suc f) (predictors c)"
proof -
  let ?P = "\<lambda>c. Probab c = prob (interceptList k ! configIndex k) (dfCoeffs k ! Suc f) (predictors c)"
  from assms(1) obtain scored t1 merged where
    sc: "calculateField s f (farmCount k) (probabilities k f tbl) = Inr scored"
    and al: "allocate s f scored = (t1, merged, a)"
    and fin: "tbl' = t1 \<or> (\<exists>ups. tbl' = map (writeBack ups) t1)"
    by (auto simp: caStep_def neighborhoodEffectsUpdate_def split: sum.splits prod.splits if_splits)
  have 0: "\<forall>c \<in> set (probabilities k f tbl). ?P c"
    by (simp add: probabilities_def)
  have 1: "\<forall>c \<in> set scored. ?P c"
  proof
    fix c' assume "c' \<in> set scored"
    with calculateField_rows[OF sc] obtain c0 where
      "c0 \<in> set (probabilities k f tbl)" and "\<exists>v. c' = c0\<lparr>Probab_Year := v\<rparr>"
      by (auto dest!: list_all2_set2)
    with 0 show "?P c'" by auto
  qed
  from allocate_table[OF al] obtain ns where
    t1: "t1 = map (\<lambda>row. if TARGET_FID row \<in> set ns then row\<lparr>Wind_Turb_Fut := label f\<rparr> else row) scored"
    by blast
  have 2: "\<forall>c \<in> set t1. ?P c"
    unfolding t1 using 1 by auto
  have 3: "\<forall>c \<in> set tbl'. ?P c"
    using fin 2 by (auto simp: writeBack_fields)
  with assms(2) show ?thesis by blast
qed

lemma caLoop_Probab:
  "caLoop s k fs tbl = (trace, err) \<Longrightarrow> t < length trace \<Longrightarrow> c \<in> set (trace ! t) \<Longrightarrow>
   Probab c = prob (interceptList k ! configIndex k) (dfCoeffs k ! Suc (fs ! t)) (predictors c)"
proof (induction fs arbitrary: tbl trace t err)
  case Nil
  then show ?case by simp
next
  case (Cons f fs)
  show ?case
  proof (cases "caStep s k f tbl")
    case (Inl e)
    with Cons.prems show ?thesis by simp
  next
    case (Inr r)
    obtain tbl' a where r: "r = (tbl', a)" by (cases r)
    have st: "\<forall>c \<in> set tbl'. Probab c = prob (interceptList k ! configIndex k) (dfCoeffs k ! Suc f) (predictors c)"
      using Inr r caStep_Probab by blast
    show ?thesis
    proof (cases "ConstYesNo s = No \<and> a")
      case True
      with Cons.prems Inr r st show ?thesis by auto
    next
      case False
      obtain tr e where l: "caLoop s k fs tbl' = (tr, e)" by (cases "caLoop s k fs tbl'")
      from False Cons.prems(1) Inr r l have tr: "trace = tbl' # tr" by auto
      show ?thesis
      proof (cases t)
        case 0
        with tr st Cons.prems show ?thesis by simp
      next
        case (Suc n)
        with tr Cons.prems have "n < length tr" "c \<in> set (tr ! n)" by simp_all
        from Cons.IH[OF l this] Suc show ?thesis by simp
      qed
    qed
  qed
qed

text \<open>
  Claim C9. For every configuration (position \<open>g\<close> in the list of configurations, 0 being
  the null configuration, which borrows the first fitted intercept) and every completed
  time step of its loop, the probability of every row is the logistic function of the
  fitted intercept of that configuration and of the coefficient column of the time step:
  the coefficient iteration yields the columns only, and the intercept in use at every
  step is the base one.
\<close>

theorem intercept_unchanged:
  assumes "insertNullIntercept fitted = Inr intercepts" and "g \<le> length fitted"
    and "caLoop s \<lparr>interceptList = intercepts, configIndex = g,
           dfCoeffs = coefficientIteration change coeff2020, farmCount = cnt\<rparr> fs tbl = (trace, err)"
    and "t < length trace" and "c \<in> set (trace ! t)"
  shows "Probab c =
     prob (if g = 0 then fitted ! 0 else fitted ! (g - 1))
       (coefficientIteration change coeff2020 ! Suc (fs ! t)) (predictors c)"
proof -
  from assms(1) have i: "intercepts = (fitted ! 0) # fitted"
    by (simp add: insertNullIntercept_def split: if_splits)
  have "intercepts ! g = (if g = 0 then fitted ! 0 else fitted ! (g - 1))"
    unfolding i by (cases g) simp_all
  with caLoop_Probab[OF assms(3,4,5)] show ?thesis
    by simp
qed

lemma no_predictor_columns: "coefficientIteration [] [] = [[], [], [], [], [], [], []]"
  by (simp add: coefficientIteration_colsUpto eval_nat_numeral colsUpto_Suc colsUpto_base
      newCoefficients_def)

lemma exampleRun_columns:
  "exampleRun = \<lparr>interceptList = [0, 0], configIndex = 1,
     dfCoeffs = coefficientIteration [] [], farmCount = 0\<rparr>"
  by (simp add: exampleRun_def no_predictor_columns)

theorem intercept_unchanged_witness:
  "insertNullIntercept [0] = Inr [0, 0] \<and> (1::nat) \<le> length [0::real]
   \<and> length (fst (caLoop (exampleSettings Yes Yes 1)
        \<lparr>interceptList = [0, 0], configIndex = 1,
          dfCoeffs = coefficientIteration [] [], farmCount = 0\<rparr> [0, 1]
        [freeCell 1, freeCell 2])) = 2
   \<and> map Probab (fst (caLoop (exampleSettings Yes Yes 1)
        \<lparr>interceptList = [0, 0], configIndex = 1,
          dfCoeffs = coefficientIteration [] [], farmCount = 0\<rparr> [0, 1]
        [freeCell 1, freeCell 2]) ! 1) = [1 / 2, 1 / 2]"
proof -
  let ?k = "\<lparr>interceptList = [0, 0], configIndex = 1,
    dfCoeffs = coefficientIteration [] [], farmCount = 0\<rparr>"
  have ins: "insertNullIntercept [0] = Inr [0, 0]"
    by (simp add: insertNullIntercept_def)
  obtain t1 t2 where
    run: "caLoop (exampleSettings Yes Yes 1) ?k [0, 1] [freeCell 1, freeCell 2] = ([t1, t2], None)"
    and l2: "map Wind_Turb_Fut t2 = [''Y (2025)'', ''Y (2030)'']"
    using two_step_run unfolding exampleRun_columns by (elim exE conjE)
  from l2 obtain a b where t2: "t2 = [a, b]"
    by (auto simp: map_eq_Cons_conv)
  have col: "coefficientIteration [] [] ! Suc ([0, 1] ! 1) = []"
    by (simp add: no_predictor_columns)
  have "Probab c = 1 / 2" if "c \<in> set t2" for c
    using intercept_unchanged [OF ins _ run, of 1 c] that col by (simp add: prob_no_coefficients)
  then have "map Probab t2 = [1 / 2, 1 / 2]"
    by (simp add: t2)
  then show ?thesis
    unfolding run using ins by simp
qed

section \<open>Bounds of the probability and of the field along the loop\<close>








text \<open>
  The full scan before the run leaves such factors on a surface whose \<^verbatim>\<open>Constraint\<close>
  entries are 0 or 1.
\<close>

lemma neighborhoodEffects_valid:
  assumes "\<forall>g. nr g g"
    and "\<forall>c \<in> set preparedSurface. (Constraint c = 0 \<or> Constraint c = 1) \<and> Neighb_Update c = None"
  shows "\<forall>c \<in> set (neighborhoodEffects nr preparedSurface). validFactors c"
proof
  fix c assume "c \<in> set (neighborhoodEffects nr preparedSurface)"
  then obtain row where row: "row \<in> set preparedSurface"
    and c: "c = row\<lparr>Neighborhood := neighborhoodEffect nr preparedSurface (TARGET_FID row)\<rparr>"
    by (auto simp: neighborhoodEffects_def)
  have "0 \<le> neighborhoodEffect nr preparedSurface (TARGET_FID row)
      \<and> neighborhoodEffect nr preparedSurface (TARGET_FID row) \<le> 1"
    using row refl assms(1)[rule_format] by (rule neighborhoodEffect_bounds)
  with assms(2) row show "validFactors c"
    by (simp add: c validFactors_def)
qed








section \<open>Properties of the allocation of a time step\<close>


























section \<open>The disagreement table of two runs\<close>

lemma constant_columns:
  "coefficientIteration [0] [c] = [[c], [c], [c], [c], [c], [c], [c]]"
  by (simp add: coefficientIteration_colsUpto eval_nat_numeral colsUpto_Suc colsUpto_base
      newCoefficients_def newCoefficient_zero)

lemmas example_run_defs =
  runClassification_def classify_def projectedCells_def exampleSurface_def barredFreeCell_def
  constant_columns prob_cell_zero prob_cell_one example_step_defs

lemma nullRun_classes:
  "runClassification (exampleSettings No No 1) nullRun (exampleSurface 0) = Inr nullClasses"
  by (simp add: nullRun_def nullClasses_def example_run_defs)

lemma otherRun_classes:
  "runClassification (exampleSettings No No 1) otherRun (exampleSurface 1) = Inr otherClasses"
  by (simp add: otherRun_def otherClasses_def example_run_defs)

lemma rows_null_other:
  "tableRows nullClasses otherClasses =
     [[1, 1, 1, 0, 0, 0, 0, 3], [1, 0, 0, 0, 0, 0, 0, 1], [0, 0, 0, 0, 0, 0, 0, 0],
      [0, 0, 0, 0, 0, 0, 0, 0], [0, 0, 0, 0, 0, 0, 0, 0], [0, 0, 0, 0, 0, 0, 0, 0],
      [0, 0, 0, 0, 0, 0, 0, 0]]"
  by (simp add: tableRows_def tableRow_def classLists_def countIn_def nullClasses_def
      otherClasses_def)

text \<open>
  Claim C6. The claim: the quantity disagreement computed for a table is half the sum,
  over the seven classes, of the absolute difference between the class's row total and
  its column total. The code subtracts \<^verbatim>\<open>transList[k][7]\<close> from
  \<^verbatim>\<open>bottomRow[k]\<close>, which are the same number. On a surface of four cells, with the
  constraints and the neighbourhood effects in use and one cell to convert per step, the
  null configuration converts cell 4 in 2025 and stops in 2030, and the other
  configuration converts cell 1 in 2025, cell 2 in 2030 and stops in 2035. For the table
  of these two runs the formula of the claim gives 1 (the classes have the row totals
  3, 1, 0 and the column totals 2, 1, 1), while the code computes 0, finds the
  alternative value 0 as well, and reports 0.
\<close>

theorem quantDis_misses_row_totals:
  "runClassification (exampleSettings No No 1) nullRun (exampleSurface 0) = Inr nullClasses
   \<and> runClassification (exampleSettings No No 1) otherRun (exampleSurface 1) = Inr otherClasses
   \<and> spec_quantDis (tableRows nullClasses otherClasses) = 1
   \<and> quantDis (tableRows nullClasses otherClasses) = 0
   \<and> quantDisStar (tableRows nullClasses otherClasses) = 0
   \<and> qFinal (tableRows nullClasses otherClasses) = 0"
proof -
  have a: "spec_quantDis (tableRows nullClasses otherClasses) = 1"
    unfolding rows_null_other by code_simp
  have b: "quantDisStar (tableRows nullClasses otherClasses) = 0"
    unfolding rows_null_other by code_simp
  have c: "quantDis (tableRows nullClasses otherClasses) = 0"
    by (rule quantDis_tableRows)
  from a b c nullRun_classes otherRun_classes show ?thesis by (simp add: qFinal_def)
qed

end
